theory Spec2Isabelle
  imports Main "HOL-Library.Word"
begin

text \<open>
  A model of the WhatsApp news-chat scraper: the message parser (\<open>parser.js\<close>), the
  state manager (\<open>stateManager.js\<close>), the CSV exporter (\<open>exporter.js\<close>) and the
  scraper that drives them (\<open>scraper.js\<close>). Each function of these files is a
  function here under its own name. What the code reaches outside itself is made
  explicit: an exception is a value of \<open>js_error\<close>, the two files and the calls to the
  chat are a \<open>world\<close> that is passed along, and the behaviour of the JavaScript
  platform the code relies on (strings, \<open>Date\<close>, regular expressions, JSON) is
  written out where it is used. Numbers are integers. The WhatsApp client, the Google
  Sheets exporter and the logger are not modelled.
\<close>

section \<open>JavaScript values and strings\<close>

text \<open>
  A JavaScript string is a sequence of UTF-16 code units. ASCII literals are written
  through \<open>js\<close>; the Hebrew letters of the parser's source-tag pattern are given by
  their code units.
\<close>

type_synonym jschar = "16 word"
type_synonym jsstring = "jschar list"

definition js :: "string \<Rightarrow> jsstring" where
  "js s = map (\<lambda>c. of_nat (of_char c)) s"

text \<open>
  The values an argument of the parser or a message body can hold. \<open>JObject\<close> stands
  for any object (arrays included): the code only tests such a value for truthiness and
  for \<open>typeof v !== 'string'\<close>.
\<close>

datatype jsval = JUndefined | JNull | JBool bool | JNum int | JStr jsstring | JObject

fun truthy :: "jsval \<Rightarrow> bool" where
  "truthy JUndefined = False"
| "truthy JNull = False"
| "truthy (JBool b) = b"
| "truthy (JNum n) = (n \<noteq> 0)"
| "truthy (JStr s) = (s \<noteq> [])"
| "truthy JObject = True"

fun is_string :: "jsval \<Rightarrow> bool" where
  "is_string (JStr s) = True"
| "is_string v = False"

text \<open>
  \<open>isWhiteSpace\<close> is the set that both \<open>String.prototype.trim\<close> and the regular
  expression class \<open>\s\<close> use: ECMAScript's WhiteSpace and LineTerminator code units.
\<close>

definition isWhiteSpace :: "jschar \<Rightarrow> bool" where
  "isWhiteSpace c \<longleftrightarrow>
     c \<in> set [0x09, 0x0A, 0x0B, 0x0C, 0x0D, 0x20, 0xA0, 0x1680, 0x2028, 0x2029,
                0x202F, 0x205F, 0x3000, 0xFEFF]
     \<or> (0x2000 \<le> c \<and> c \<le> 0x200A)"

definition trim :: "jsstring \<Rightarrow> jsstring" where
  "trim s = rev (dropWhile isWhiteSpace (rev (dropWhile isWhiteSpace s)))"

text \<open>\<open>s.split(sep)\<close> for a one-unit separator: the empty string splits into \<open>['']\<close>.\<close>

fun split :: "jschar \<Rightarrow> jsstring \<Rightarrow> jsstring list" where
  "split sep [] = [[]]"
| "split sep (c # cs) =
     (if c = sep then [] # split sep cs
      else (case split sep cs of [] \<Rightarrow> [[c]] | l # ls \<Rightarrow> (c # l) # ls))"

text \<open>\<open>lines.join(sep)\<close>.\<close>

fun join :: "jsstring \<Rightarrow> jsstring list \<Rightarrow> jsstring" where
  "join sep [] = []"
| "join sep [l] = l"
| "join sep (l # m # ls) = l @ sep @ join sep (m # ls)"

definition newline :: jschar where
  "newline = 0x0A"

text \<open>\<open>s.padStart(n, c)\<close> for a one-unit filler.\<close>

definition padStart :: "nat \<Rightarrow> jschar \<Rightarrow> jsstring \<Rightarrow> jsstring" where
  "padStart n c s = replicate (n - length s) c @ s"

subsection \<open>Numbers to strings\<close>

fun digits :: "nat \<Rightarrow> jsstring" where
  "digits n = (if n < 10 then [of_nat (48 + n)] else digits (n div 10) @ [of_nat (48 + n mod 10)])"

text \<open>
  \<open>String(x)\<close> for a number that is an integer or NaN (\<open>None\<close>). The exponent
  notation JavaScript switches to from \<open>1e21\<close> on is never reached by a calendar field
  or a message count.
\<close>

definition String_int :: "int \<Rightarrow> jsstring" where
  "String_int i = (if i < 0 then js ''-'' @ digits (nat (- i)) else digits (nat i))"

definition String_number :: "int option \<Rightarrow> jsstring" where
  "String_number x = (case x of None \<Rightarrow> js ''NaN'' | Some i \<Rightarrow> String_int i)"

section \<open>parser.js\<close>

subsection \<open>The Date object, in UTC\<close>

text \<open>
  \<open>new Date(ms)\<close> holds a time value, or is an Invalid Date (\<open>None\<close>) when the
  argument is beyond 8.64e15 milliseconds either side of the epoch; every getter of an
  Invalid Date returns NaN. The calendar fields are those of the proleptic Gregorian
  calendar, computed from the day number with floor division.
\<close>

definition new_Date :: "int \<Rightarrow> int option" where
  "new_Date ms = (if \<bar>ms\<bar> \<le> 8640000000000000 then Some ms else None)"

definition Day :: "int \<Rightarrow> int" where
  "Day t = t div 86400000"

definition HourFromTime :: "int \<Rightarrow> int" where
  "HourFromTime t = (t div 3600000) mod 24"

definition MinFromTime :: "int \<Rightarrow> int" where
  "MinFromTime t = (t div 60000) mod 60"

text \<open>Year, month (1 to 12) and day of the month of a day number counted from 1970-01-01.\<close>

definition civil_from_days :: "int \<Rightarrow> int \<times> int \<times> int" where
  "civil_from_days z0 =
     (let z = z0 + 719468;
          era = z div 146097;
          doe = z - era * 146097;
          yoe = (doe - doe div 1460 + doe div 36524 - doe div 146096) div 365;
          y = yoe + era * 400;
          doy = doe - (365 * yoe + yoe div 4 - yoe div 100);
          mp = (5 * doy + 2) div 153;
          d = doy - (153 * mp + 2) div 5 + 1;
          m = (if mp < 10 then mp + 3 else mp - 9)
      in (if m \<le> 2 then y + 1 else y, m, d))"

definition getUTCFullYear :: "int option \<Rightarrow> int option" where
  "getUTCFullYear date = map_option (\<lambda>t. fst (civil_from_days (Day t))) date"

definition getUTCMonth :: "int option \<Rightarrow> int option" where
  "getUTCMonth date = map_option (\<lambda>t. fst (snd (civil_from_days (Day t))) - 1) date"

definition getUTCDate :: "int option \<Rightarrow> int option" where
  "getUTCDate date = map_option (\<lambda>t. snd (snd (civil_from_days (Day t)))) date"

definition getUTCHours :: "int option \<Rightarrow> int option" where
  "getUTCHours date = map_option HourFromTime date"

definition getUTCMinutes :: "int option \<Rightarrow> int option" where
  "getUTCMinutes date = map_option MinFromTime date"

definition formatDate :: "int \<Rightarrow> jsstring" where
  "formatDate timestamp =
     (let date = new_Date (timestamp * 1000);
          day = padStart 2 0x30 (String_number (getUTCDate date));
          month = padStart 2 0x30 (String_number (map_option (\<lambda>m. m + 1) (getUTCMonth date)));
          year = getUTCFullYear date
      in day @ js ''/'' @ month @ js ''/'' @ String_number year)"

definition formatTime :: "int \<Rightarrow> jsstring" where
  "formatTime timestamp =
     (let date = new_Date (timestamp * 1000);
          hours = padStart 2 0x30 (String_number (getUTCHours date));
          minutes = padStart 2 0x30 (String_number (getUTCMinutes date))
      in hours @ js '':'' @ minutes)"

subsection \<open>The two regular expressions\<close>

text \<open>
  \<open>sourceTagPattern\<close> is \<open>/X|chat|Y/i\<close> with X the Hebrew word of code units
  05E6 0027 05D0 05D8 and Y that of 05E7 05D1 05D5 05E6 05EA. Under the \<open>i\<close> flag two
  code units match when their canonical forms agree. Every unit of this pattern is an
  ASCII letter, an apostrophe or a Hebrew letter, and the only units whose canonical form
  is that of such a unit are the unit itself and, for an ASCII letter, its other case;
  \<open>canonicalize\<close> therefore folds the ASCII lower-case letters and nothing else.
\<close>

definition canonicalize :: "jschar \<Rightarrow> jschar" where
  "canonicalize c = (if 0x61 \<le> c \<and> c \<le> 0x7A then c - 0x20 else c)"

fun matches_here_i :: "jsstring \<Rightarrow> jsstring \<Rightarrow> bool" where
  "matches_here_i [] s = True"
| "matches_here_i (p # ps) [] = False"
| "matches_here_i (p # ps) (c # cs) = (canonicalize p = canonicalize c \<and> matches_here_i ps cs)"

definition sourceTagAlternatives :: "jsstring list" where
  "sourceTagAlternatives =
     [[0x05E6, 0x27, 0x05D0, 0x05D8], js ''chat'', [0x05E7, 0x05D1, 0x05D5, 0x05E6, 0x05EA]]"

text \<open>\<open>sourceTagPattern.test(line)\<close>: some alternative matches at some position.\<close>

fun sourceTagPattern_test :: "jsstring \<Rightarrow> bool" where
  "sourceTagPattern_test [] = False"
| "sourceTagPattern_test (c # cs) =
     (list_ex (\<lambda>alt. matches_here_i alt (c # cs)) sourceTagAlternatives
      \<or> sourceTagPattern_test cs)"

text \<open>
  \<open>linkRegex\<close> is \<open>/(https?:\/\/[^\s]+)/g\<close>. \<open>linkRegex_at s\<close> is the length of
  its match at the start of \<open>s\<close>: the scheme, then the longest run of non-whitespace
  units, which must not be empty.
\<close>

definition linkRegex_at :: "jsstring \<Rightarrow> nat option" where
  "linkRegex_at s =
     (let scheme = (if take 8 s = js ''https://'' then Some 8
                    else if take 7 s = js ''http://'' then Some 7 else None)
      in case scheme of
           None \<Rightarrow> None
         | Some k \<Rightarrow>
             (let run = length (takeWhile (\<lambda>c. \<not> isWhiteSpace c) (drop k s))
              in if run = 0 then None else Some (k + run)))"

text \<open>
  \<open>content.match(linkRegex)\<close> with the \<open>g\<close> flag: every match from left to right,
  the search resuming where the last match ended; \<open>null\<close> becomes \<open>[]\<close> through
  \<open>|| []\<close>.
\<close>

fun match_links :: "jsstring \<Rightarrow> jsstring list" where
  "match_links [] = []"
| "match_links (c # cs) =
     (case linkRegex_at (c # cs) of
        None \<Rightarrow> match_links cs
      | Some n \<Rightarrow> take n (c # cs) # match_links (drop (n - 1) cs))"

subsection \<open>parseMessage\<close>

text \<open>
  The parsed message object. \<open>sender\<close> is the property the scraper adds after parsing;
  \<open>parseMessage\<close> itself returns an object without it (\<open>None\<close>).
\<close>

record parsed_message =
  reporter :: jsstring
  content :: jsstring
  date :: jsstring
  time :: jsstring
  links :: "jsstring list"
  hasMedia :: bool
  sender :: "jsstring option"

definition empty_message :: "int \<Rightarrow> bool \<Rightarrow> parsed_message" where
  "empty_message timestamp hm =
     \<lparr>reporter = [], content = [], date = formatDate timestamp, time = formatTime timestamp,
      links = [], hasMedia = hm, sender = None\<rparr>"

text \<open>The non-blank lines of the trimmed text.\<close>

definition message_lines :: "jsstring \<Rightarrow> jsstring list" where
  "message_lines text = filter (\<lambda>line. trim line \<noteq> []) (split newline (trim text))"

text \<open>
  \<open>parseMessage(messageText, timestamp, hasMedia = false)\<close>. The third argument is
  \<open>None\<close> when the caller leaves it out.
\<close>

definition parseMessage :: "jsval \<Rightarrow> int \<Rightarrow> bool option \<Rightarrow> parsed_message" where
  "parseMessage messageText timestamp hasMediaArg =
     (let hm = (case hasMediaArg of None \<Rightarrow> False | Some b \<Rightarrow> b) in
      if \<not> truthy messageText \<or> \<not> is_string messageText then empty_message timestamp hm
      else
        (case messageText of
           JStr text \<Rightarrow>
             (case message_lines text of
                [] \<Rightarrow> empty_message timestamp hm
              | first # rest \<Rightarrow>
                  (let contentLines = filter (\<lambda>line. \<not> sourceTagPattern_test line) rest;
                       c = trim (join [newline] contentLines)
                   in \<lparr>reporter = trim first, content = c, date = formatDate timestamp,
                        time = formatTime timestamp, links = match_links c, hasMedia = hm,
                        sender = None\<rparr>))
         | _ \<Rightarrow> empty_message timestamp hm))"

section \<open>stateManager.js\<close>

text \<open>
  A property of the persisted state object: absent (\<open>Undefined\<close>), \<open>null\<close>, or
  a value of the type the state's schema gives it.
\<close>

datatype 'a jsprop = Undefined | Null | Val 'a

record scraper_state =
  chatId :: "jsstring jsprop"
  chatName :: "jsstring jsprop"
  lastProcessedTimestamp :: "int jsprop"
  lastRunDate :: "jsstring jsprop"
  totalMessagesProcessed :: "int jsprop"

text \<open>
  What \<open>JSON.parse\<close> returns for the state file: an object, read at the five
  properties of the schema, or a value that is not an object (\<open>null\<close>, a number, a
  string, a boolean; \<open>JObject\<close> stands for an array here). The state file itself is
  absent or unreadable (\<open>fs.readFile\<close> rejects), holds text that is not JSON
  (\<open>JSON.parse\<close> throws), or holds the JSON text of a document. Objects whose
  properties have other types than the schema's are outside this model.
\<close>

datatype json_doc = DocObject scraper_state | DocValue jsval

datatype state_file = NoFile | Garbage | Json json_doc

datatype js_error = Error jsstring | TypeError jsstring

fun error_message :: "js_error \<Rightarrow> jsstring" where
  "error_message (Error m) = m"
| "error_message (TypeError m) = m"

definition defaultState :: scraper_state where
  "defaultState =
     \<lparr>chatId = Null, chatName = Null, lastProcessedTimestamp = Null, lastRunDate = Null,
      totalMessagesProcessed = Val 0\<rparr>"

text \<open>\<open>loadState\<close>: every failure of the read or of the parse gives a copy of the default.\<close>

definition loadState :: "state_file \<Rightarrow> json_doc" where
  "loadState f = (case f of Json d \<Rightarrow> d | NoFile \<Rightarrow> DocObject defaultState
                  | Garbage \<Rightarrow> DocObject defaultState)"

text \<open>
  Reading a property of the loaded value, as \<open>state.lastProcessedTimestamp\<close> does:
  a TypeError on \<open>null\<close>, \<open>undefined\<close> on every other value that is not an
  object.
\<close>

definition read_state :: "json_doc \<Rightarrow> js_error + scraper_state" where
  "read_state d =
     (case d of
        DocObject s \<Rightarrow> Inr s
      | DocValue v \<Rightarrow>
          (if v = JNull \<or> v = JUndefined
           then Inl (TypeError (js ''Cannot read properties of null''))
           else Inr \<lparr>chatId = Undefined, chatName = Undefined,
                     lastProcessedTimestamp = Undefined, lastRunDate = Undefined,
                     totalMessagesProcessed = Undefined\<rparr>))"

section \<open>The message source, the file system and the calls made to them\<close>

record raw_message =
  body :: jsval
  timestamp :: int
  msgHasMedia :: bool
  author :: "jsstring option"
  fromId :: "jsstring option"

datatype fetch_limit = Infinity | Limit nat

text \<open>
  The chat object of the WhatsApp client: \<open>chat.id._serialized\<close>, \<open>chat.name\<close>
  and \<open>chat.fetchMessages({limit})\<close>, which resolves to messages or rejects.
\<close>

record chat =
  chat_id :: jsstring
  chat_name :: jsstring
  fetchMessages :: "fetch_limit \<Rightarrow> js_error + raw_message list"

record csv_record =
  csv_date :: jsstring
  csv_time :: jsstring
  csv_sender :: jsstring
  csv_reporter :: jsstring
  csv_content :: jsstring
  csv_hasMedia :: bool
  csv_links :: jsstring

datatype csv_line = HeaderLine "jsstring list" | RecordLine csv_record

datatype call = FetchMessages fetch_limit | WriteState scraper_state | ExportToCSV nat bool

text \<open>
  The world a cycle runs in: the state file; the CSV file at \<open>config.paths.output\<close>
  (\<open>None\<close> when it does not exist); for each of the two files the message of the error
  a write to it would raise now, if any; and a record, oldest first, of the calls to
  \<open>chat.fetchMessages\<close> and to \<open>exportToCSV\<close> (with the number of messages and
  the \<open>append\<close> option) and of the states written to the state file. Logging is left
  out.
\<close>

record world =
  state_file :: state_file
  state_fault :: "jsstring option"
  csv_file :: "csv_line list option"
  csv_fault :: "jsstring option"
  calls :: "call list"

subsection \<open>saveState and updateState\<close>

definition saveState :: "scraper_state \<Rightarrow> world \<Rightarrow> js_error + world" where
  "saveState state w =
     (case state_fault w of
        Some m \<Rightarrow> Inl (Error (js ''Failed to save state: '' @ m))
      | None \<Rightarrow>
          Inr (w\<lparr>state_file := Json (DocObject state),
                 calls := calls w @ [WriteState state]\<rparr>))"

text \<open>
  The object the scraper passes to \<open>updateState\<close>. The two numbers are results of
  \<open>Math.max\<close> and of \<open>+\<close>: \<open>None\<close> is a number that is not finite
  (\<open>-Infinity\<close>, \<open>NaN\<close>), which \<open>JSON.stringify\<close> writes as \<open>null\<close>.
\<close>

record state_updates =
  upd_chatId :: jsstring
  upd_chatName :: jsstring
  upd_lastProcessedTimestamp :: "int option"
  upd_totalMessagesProcessed :: "int option"

definition stringify_number :: "int option \<Rightarrow> int jsprop" where
  "stringify_number x = (case x of None \<Rightarrow> Null | Some n \<Rightarrow> Val n)"

text \<open>
  \<open>{...currentState, ...updates}\<close> as the state file will hold it: the four updated
  properties, and \<open>lastRunDate\<close> as it was.
\<close>

definition merge_state :: "json_doc \<Rightarrow> state_updates \<Rightarrow> scraper_state" where
  "merge_state currentState updates =
     \<lparr>chatId = Val (upd_chatId updates),
      chatName = Val (upd_chatName updates),
      lastProcessedTimestamp = stringify_number (upd_lastProcessedTimestamp updates),
      lastRunDate = (case currentState of DocObject s \<Rightarrow> lastRunDate s
                     | DocValue v \<Rightarrow> Undefined),
      totalMessagesProcessed = stringify_number (upd_totalMessagesProcessed updates)\<rparr>"

definition updateState :: "state_updates \<Rightarrow> world \<Rightarrow> js_error + world" where
  "updateState updates w =
     (let currentState = loadState (state_file w);
          newState = merge_state currentState updates
      in case saveState newState w of
           Inl e \<Rightarrow> Inl (Error (js ''Failed to update state: '' @ error_message e))
         | Inr w' \<Rightarrow> Inr w')"

section \<open>exporter.js\<close>

definition header_titles :: "jsstring list" where
  "header_titles =
     [js ''Date'', js ''Time'', js ''Sender'', js ''Reporter'', js ''Message'',
      js ''Has_Media'', js ''Links'']"

text \<open>The record written for a message; \<open>x || ''\<close> of a string is the string.\<close>

definition to_record :: "parsed_message \<Rightarrow> csv_record" where
  "to_record msg =
     \<lparr>csv_date = date msg, csv_time = time msg,
      csv_sender = (case sender msg of None \<Rightarrow> [] | Some s \<Rightarrow> s),
      csv_reporter = reporter msg, csv_content = content msg,
      csv_hasMedia = hasMedia msg, csv_links = join (js '', '') (links msg)\<rparr>"

text \<open>
  Modelled from the spec: the csv-writer package (\<open>createObjectCsvWriter\<close> and the
  writer's \<open>writeRecords\<close>) is a dependency, not part of the sources. A writer made
  with \<open>append: false\<close> replaces the destination by the header row and the data rows;
  one made with \<open>append: true\<close> adds the data rows to the end of the destination and
  writes no header. A write that fails raises and leaves the destination as it was.
\<close>

definition writeRecords :: "bool \<Rightarrow> csv_record list \<Rightarrow> world \<Rightarrow> js_error + world" where
  "writeRecords shouldAppend records w =
     (case csv_fault w of
        Some m \<Rightarrow> Inl (Error m)
      | None \<Rightarrow>
          Inr (w\<lparr>csv_file :=
                   Some ((if shouldAppend then (case csv_file w of None \<Rightarrow> [] | Some old \<Rightarrow> old)
                          else [HeaderLine header_titles])
                         @ map RecordLine records)\<rparr>))"

definition exportToCSV ::
  "parsed_message list \<Rightarrow> bool \<Rightarrow> world \<Rightarrow> (js_error + unit) \<times> world" where
  "exportToCSV messages appendOption w =
     (let fileExists = (csv_file w \<noteq> None);
          shouldAppend = (appendOption \<and> fileExists);
          records = map to_record messages;
          w1 = w\<lparr>calls := calls w @ [ExportToCSV (length messages) appendOption]\<rparr>
      in case writeRecords shouldAppend records w1 of
           Inl e \<Rightarrow> (Inl e, w1)
         | Inr w2 \<Rightarrow> (Inr (), w2))"

section \<open>scraper.js\<close>

text \<open>\<open>msg.timestamp > state.lastProcessedTimestamp\<close>: \<open>null\<close> compares as 0,
  \<open>undefined\<close> as NaN.\<close>

definition js_gt :: "int \<Rightarrow> int jsprop \<Rightarrow> bool" where
  "js_gt t x = (case x of Val n \<Rightarrow> n < t | Null \<Rightarrow> 0 < t | Undefined \<Rightarrow> False)"

text \<open>\<open>state.totalMessagesProcessed + parsedMessages.length\<close>.\<close>

definition js_plus :: "int jsprop \<Rightarrow> int \<Rightarrow> int option" where
  "js_plus x k = (case x of Val n \<Rightarrow> Some (n + k) | Null \<Rightarrow> Some k | Undefined \<Rightarrow> None)"

text \<open>\<open>Math.max(...xs)\<close>; of no argument it is \<open>-Infinity\<close>.\<close>

fun Math_max :: "int list \<Rightarrow> int option" where
  "Math_max [] = None"
| "Math_max (x # xs) = Some (fold max xs x)"

text \<open>The test under which the loop skips a message.\<close>

definition skip_message :: "raw_message \<Rightarrow> bool" where
  "skip_message msg \<longleftrightarrow>
     \<not> truthy (body msg) \<or> \<not> is_string (body msg)
     \<or> (case body msg of JStr s \<Rightarrow> trim s = [] | _ \<Rightarrow> True)"

text \<open>\<open>msg.author || msg.from || ''\<close>.\<close>

definition sender_of :: "raw_message \<Rightarrow> jsstring" where
  "sender_of msg =
     (case author msg of
        Some a \<Rightarrow> (if a \<noteq> [] then a else (case fromId msg of Some f \<Rightarrow> f | None \<Rightarrow> []))
      | None \<Rightarrow> (case fromId msg of Some f \<Rightarrow> f | None \<Rightarrow> []))"

text \<open>
  The loop over the fetched messages. Nothing in its body raises on a message of this
  model, so the \<open>catch\<close> that counts parse errors is never entered.
\<close>

fun parse_loop :: "raw_message list \<Rightarrow> parsed_message list" where
  "parse_loop [] = []"
| "parse_loop (msg # msgs) =
     (if skip_message msg then parse_loop msgs
      else (parseMessage (body msg) (timestamp msg) (Some (msgHasMedia msg)))
             \<lparr>sender := Some (sender_of msg)\<rparr> # parse_loop msgs)"

definition fetch :: "chat \<Rightarrow> fetch_limit \<Rightarrow> world \<Rightarrow> (js_error + raw_message list) \<times> world" where
  "fetch c lim w = (fetchMessages c lim, w\<lparr>calls := calls w @ [FetchMessages lim]\<rparr>)"

text \<open>
  \<open>scrapeMessages(chat, isFirstRun)\<close>: the parsed messages or the error it rethrows,
  and the world it leaves.
\<close>

definition scrapeMessages ::
  "chat \<Rightarrow> bool \<Rightarrow> world \<Rightarrow> (js_error + parsed_message list) \<times> world" where
  "scrapeMessages c firstRun w0 =
     (let state = read_state (loadState (state_file w0)) in
      case (if firstRun then fetch c Infinity w0
            else (case state of
                    Inl e \<Rightarrow> (Inl e, w0)
                  | Inr s \<Rightarrow>
                      (if lastProcessedTimestamp s = Val 0 then fetch c Infinity w0
                       else (case fetch c (Limit 100) w0 of
                               (Inl e, w) \<Rightarrow> (Inl e, w)
                             | (Inr fetched, w) \<Rightarrow>
                                 (Inr (filter (\<lambda>msg. js_gt (timestamp msg)
                                                 (lastProcessedTimestamp s)) fetched), w))))) of
        (Inl e, w) \<Rightarrow> (Inl e, w)
      | (Inr fetchedMessages, w) \<Rightarrow>
          (let parsedMessages = parse_loop fetchedMessages in
           if parsedMessages \<noteq> [] then
             (let latestTimestamp = Math_max (map timestamp fetchedMessages) in
              case state of
                Inl e \<Rightarrow> (Inl e, w)
              | Inr s \<Rightarrow>
                  (let newTotalCount =
                         js_plus (totalMessagesProcessed s) (int (length parsedMessages))
                   in case updateState
                             \<lparr>upd_chatId = chat_id c, upd_chatName = chat_name c,
                              upd_lastProcessedTimestamp = latestTimestamp,
                              upd_totalMessagesProcessed = newTotalCount\<rparr> w of
                        Inl e \<Rightarrow> (Inl e, w)
                      | Inr w' \<Rightarrow> (Inr parsedMessages, w')))
           else (Inr parsedMessages, w)))"

record scrape_result =
  success :: bool
  messagesProcessed :: nat
  isFirstRun :: "bool option"
  outputFile :: "jsstring option"
  error :: "jsstring option"
  message :: jsstring

definition output_path :: jsstring where
  "output_path = js ''./data/output/news_chat_data.csv''"

definition failed :: "js_error \<Rightarrow> scrape_result" where
  "failed e =
     \<lparr>success = False, messagesProcessed = 0, isFirstRun = None, outputFile = None,
      error = Some (error_message e), message = js ''Scrape workflow failed''\<rparr>"

text \<open>\<open>scrape(chat)\<close>: the summary it returns and the world it leaves.\<close>

definition scrape :: "chat \<Rightarrow> world \<Rightarrow> scrape_result \<times> world" where
  "scrape c w0 =
     (case read_state (loadState (state_file w0)) of
        Inl e \<Rightarrow> (failed e, w0)
      | Inr s \<Rightarrow>
          (let firstRun = (lastProcessedTimestamp s = Val 0) in
           case scrapeMessages c firstRun w0 of
             (Inl e, w) \<Rightarrow> (failed e, w)
           | (Inr messages, w) \<Rightarrow>
               (if length messages = 0 then
                  (\<lparr>success = True, messagesProcessed = 0, isFirstRun = Some firstRun,
                    outputFile = Some output_path, error = None,
                    message = js ''No new messages found''\<rparr>, w)
                else
                  (case exportToCSV messages (\<not> firstRun) w of
                     (Inl e, w') \<Rightarrow> (failed e, w')
                   | (Inr u, w') \<Rightarrow>
                       (\<lparr>success = True, messagesProcessed = length messages,
                         isFirstRun = Some firstRun, outputFile = Some output_path,
                         error = None,
                         message = js ''Successfully processed '' @ String_int (int (length messages))
                                   @ js '' messages''\<rparr>, w')))))"

text \<open>
  A run of cycles, one after the other on the same files: each cycle has its own view
  of the chat and its own faults of the two files. The result is the world after each
  cycle, in order.
\<close>

fun run_cycles :: "(chat \<times> jsstring option \<times> jsstring option) list \<Rightarrow> world \<Rightarrow> world list" where
  "run_cycles [] w = []"
| "run_cycles ((c, sf, cf) # rest) w =
     (let w' = snd (scrape c (w\<lparr>state_fault := sf, csv_fault := cf\<rparr>))
      in w' # run_cycles rest w')"

section \<open>Observations on the files\<close>

text \<open>
  The persisted \<open>lastProcessedTimestamp\<close> read as a number: \<open>null\<close> counts as
  0, as it does in a JavaScript comparison, and so does a state without the property.
\<close>

definition persisted_timestamp :: "world \<Rightarrow> int" where
  "persisted_timestamp w =
     (case read_state (loadState (state_file w)) of
        Inl e \<Rightarrow> 0
      | Inr s \<Rightarrow> (case lastProcessedTimestamp s of Val n \<Rightarrow> n | Null \<Rightarrow> 0 | Undefined \<Rightarrow> 0))"

fun is_header :: "csv_line \<Rightarrow> bool" where
  "is_header (HeaderLine titles) = True"
| "is_header (RecordLine r) = False"

text \<open>The number of header rows in the CSV file; a file that does not exist has none.\<close>

definition header_rows :: "world \<Rightarrow> nat" where
  "header_rows w = (case csv_file w of None \<Rightarrow> 0 | Some rows \<Rightarrow> length (filter is_header rows))"

text \<open>Repeated calls of \<open>exportToCSV\<close> with \<open>append: true\<close>, one per batch.\<close>

fun export_appends :: "parsed_message list list \<Rightarrow> world \<Rightarrow> world" where
  "export_appends [] w = w"
| "export_appends (messages # batches) w = export_appends batches (snd (exportToCSV messages True w))"

section \<open>Example inputs\<close>

text \<open>
  A message with a text body and no sender, a chat that returns the same messages for
  every limit, a world in which nothing has been written yet, a world whose state file
  holds a given timestamp and whose CSV file holds its header row, and a parsed message.
\<close>

definition text_message :: "int \<Rightarrow> string \<Rightarrow> raw_message" where
  "text_message t s =
     \<lparr>body = JStr (js s), timestamp = t, msgHasMedia = False, author = None, fromId = None\<rparr>"

definition source_of :: "raw_message list \<Rightarrow> chat" where
  "source_of msgs = \<lparr>chat_id = js ''1@g.us'', chat_name = js ''News'',
                      fetchMessages = (\<lambda>lim. Inr msgs)\<rparr>"

definition fresh_world :: world where
  "fresh_world = \<lparr>state_file = NoFile, state_fault = None, csv_file = None, csv_fault = None,
                   calls = []\<rparr>"

definition world_at :: "int \<Rightarrow> world" where
  "world_at n =
     \<lparr>state_file = Json (DocObject \<lparr>chatId = Val (js ''1@g.us''), chatName = Val (js ''News''),
                          lastProcessedTimestamp = Val n, lastRunDate = Null,
                          totalMessagesProcessed = Val 5\<rparr>),
      state_fault = None, csv_file = Some [HeaderLine header_titles], csv_fault = None,
      calls = []\<rparr>"

definition parsed_R :: parsed_message where
  "parsed_R = \<lparr>reporter = js ''R'', content = [], date = js ''01/01/1970'', time = js ''00:00'',
               links = [], hasMedia = False, sender = Some []\<rparr>"

section \<open>Properties of the parser\<close>

lemma trim_Nil: "trim [] = []"
  by (simp add: trim_def)

lemma message_lines_blank: "trim s = [] \<Longrightarrow> message_lines s = []"
  by (simp add: message_lines_def trim_Nil)

lemma message_lines_Nil: "message_lines [] = []"
  by (simp add: message_lines_blank trim_Nil)

lemma parseMessage_time: "time (parseMessage messageText ts hm) = formatTime ts"
  by (cases messageText)
     (simp_all add: parseMessage_def empty_message_def Let_def split: list.splits)

lemma parseMessage_date: "date (parseMessage messageText ts hm) = formatDate ts"
  by (cases messageText)
     (simp_all add: parseMessage_def empty_message_def Let_def split: list.splits)

lemma parseMessage_hasMedia:
  "hasMedia (parseMessage messageText ts hm) = (case hm of None \<Rightarrow> False | Some b \<Rightarrow> b)"
  by (cases messageText)
     (simp_all add: parseMessage_def empty_message_def Let_def split: list.splits)

text \<open>
  Claim C8. \<open>parseMessage\<close> is a function of its three arguments alone and has a
  result for every text, timestamp and media flag: no step of it can raise, and it
  builds a new object without writing to its arguments. For every input the date and the
  time of the result are those formatted from the timestamp and the media flag is the
  given one (\<open>false\<close> when it is left out). When the text is not a string
  (\<open>null\<close> and \<open>undefined\<close> included), is the empty string, or is empty after
  trimming, the reporter and the content are empty and there are no links.
\<close>

theorem parseMessage_without_text:
  "date (parseMessage messageText ts hasMediaArg) = formatDate ts
   \<and> time (parseMessage messageText ts hasMediaArg) = formatTime ts
   \<and> hasMedia (parseMessage messageText ts hasMediaArg)
       = (case hasMediaArg of None \<Rightarrow> False | Some b \<Rightarrow> b)
   \<and> (\<not> is_string messageText \<or> (\<exists>s. messageText = JStr s \<and> trim s = []) \<longrightarrow>
        parseMessage messageText ts hasMediaArg =
          \<lparr>reporter = [], content = [], date = formatDate ts,
           time = formatTime ts, links = [],
           hasMedia = (case hasMediaArg of None \<Rightarrow> False | Some b \<Rightarrow> b), sender = None\<rparr>)"
proof -
  have "parseMessage messageText ts hasMediaArg =
          \<lparr>reporter = [], content = [], date = formatDate ts,
           time = formatTime ts, links = [],
           hasMedia = (case hasMediaArg of None \<Rightarrow> False | Some b \<Rightarrow> b), sender = None\<rparr>"
    if "\<not> is_string messageText \<or> (\<exists>s. messageText = JStr s \<and> trim s = [])"
    using that
    by (cases messageText)
       (auto simp: parseMessage_def empty_message_def message_lines_blank Let_def)
  then show ?thesis
    by (simp add: parseMessage_time parseMessage_date parseMessage_hasMedia)
qed

theorem parseMessage_without_text_witness:
  "trim (js ''  '' @ [newline] @ js '' '') = []
   \<and> parseMessage (JStr (js ''  '' @ [newline] @ js '' '')) 60 None =
       \<lparr>reporter = [], content = [], date = js ''01/01/1970'', time = js ''00:01'',
        links = [], hasMedia = False, sender = None\<rparr>
   \<and> parseMessage JNull 60 (Some True) =
       \<lparr>reporter = [], content = [], date = js ''01/01/1970'', time = js ''00:01'',
        links = [], hasMedia = True, sender = None\<rparr>"
proof -
  have blank: "trim (js ''  '' @ [newline] @ js '' '') = []"
    by code_simp
  have d: "formatDate 60 = js ''01/01/1970''"
    by code_simp
  have t: "formatTime 60 = js ''00:01''"
    by code_simp
  have one: "parseMessage (JStr (js ''  '' @ [newline] @ js '' '')) 60 None =
       \<lparr>reporter = [], content = [], date = formatDate 60, time = formatTime 60,
        links = [], hasMedia = False, sender = None\<rparr>"
    using parseMessage_without_text [of "JStr (js ''  '' @ [newline] @ js '' '')" 60 None] blank
    by simp
  have two: "parseMessage JNull 60 (Some True) =
       \<lparr>reporter = [], content = [], date = formatDate 60, time = formatTime 60,
        links = [], hasMedia = True, sender = None\<rparr>"
    using parseMessage_without_text [of JNull 60 "Some True"] by simp
  show ?thesis
    using blank one two d t by simp
qed

subsection \<open>Links\<close>

lemma scheme_no_ws:
  "list_all (\<lambda>c. \<not> isWhiteSpace c) (js ''https://'')"
  "list_all (\<lambda>c. \<not> isWhiteSpace c) (js ''http://'')"
  by (simp_all add: js_def isWhiteSpace_def)

lemma scheme_length: "length (js ''https://'') = 8" "length (js ''http://'') = 7"
  by (simp_all add: js_def)

lemma ws_newline: "isWhiteSpace newline"
  by (simp add: isWhiteSpace_def newline_def)

lemma take_eq_lengthD:
  assumes "take n s = p" and "length p = n"
  shows "n \<le> length s"
proof -
  have "length (take n s) = n" using assms by simp
  then show ?thesis by (simp add: min_def split: if_splits)
qed

lemma take_append_ws:
  assumes "isWhiteSpace w" and "list_all (\<lambda>c. \<not> isWhiteSpace c) p" and "length p = n"
  shows "take n (s @ w # r) = p \<longleftrightarrow> take n s = p"
proof (cases "n \<le> length s")
  case True
  then show ?thesis by simp
next
  case False
  then have short: "length s < n" by simp
  have "take n s \<noteq> p"
    using short assms(3) take_eq_lengthD by fastforce
  moreover have "take n (s @ w # r) \<noteq> p"
  proof
    assume eq: "take n (s @ w # r) = p"
    have "w \<in> set (take n (s @ w # r))"
      using short by (auto simp: take_Cons')
    then show False using eq assms(1,2) by (auto simp: list_all_iff)
  qed
  ultimately show ?thesis by simp
qed

lemma takeWhile_append_stop: "\<not> P w \<Longrightarrow> takeWhile P (xs @ w # r) = takeWhile P xs"
  by (induction xs) auto

lemma linkRegex_at_append_ws:
  assumes "isWhiteSpace w"
  shows "linkRegex_at (s @ w # r) = linkRegex_at s"
proof -
  have a: "take 8 (s @ w # r) = js ''https://'' \<longleftrightarrow> take 8 s = js ''https://''"
    by (rule take_append_ws [OF assms scheme_no_ws(1) scheme_length(1)])
  have b: "take 7 (s @ w # r) = js ''http://'' \<longleftrightarrow> take 7 s = js ''http://''"
    by (rule take_append_ws [OF assms scheme_no_ws(2) scheme_length(2)])
  have l8: "8 \<le> length s" if "take 8 s = js ''https://''"
    using that scheme_length(1) by (rule take_eq_lengthD)
  have l7: "7 \<le> length s" if "take 7 s = js ''http://''"
    using that scheme_length(2) by (rule take_eq_lengthD)
  show ?thesis
  proof (cases "take 8 s = js ''https://''")
    case True
    then show ?thesis
      unfolding linkRegex_at_def a using l8 assms
      by (simp add: Let_def takeWhile_append_stop)
  next
    case no8: False
    show ?thesis
    proof (cases "take 7 s = js ''http://''")
      case True
      then show ?thesis
        unfolding linkRegex_at_def a b using no8 l7 assms
        by (simp add: Let_def takeWhile_append_stop)
    next
      case False
      then show ?thesis
        unfolding linkRegex_at_def a b using no8 by simp
    qed
  qed
qed

lemma linkRegex_at_bounds:
  assumes "linkRegex_at s = Some n"
  shows "0 < n \<and> n \<le> length s"
proof -
  have r: "k + length (takeWhile P (drop k s)) \<le> length s" if "k \<le> length s" for k P
  proof -
    have "length (takeWhile P (drop k s)) \<le> length (drop k s)"
      by (rule length_takeWhile_le)
    then show ?thesis using that by simp
  qed
  have l8: "8 \<le> length s" if "take 8 s = js ''https://''"
    using that scheme_length(1) by (rule take_eq_lengthD)
  have l7: "7 \<le> length s" if "take 7 s = js ''http://''"
    using that scheme_length(2) by (rule take_eq_lengthD)
  show ?thesis
    using assms r [of 8] r [of 7] l8 l7
    by (auto simp: linkRegex_at_def Let_def split: if_splits)
qed

lemma linkRegex_at_ws: "isWhiteSpace w \<Longrightarrow> linkRegex_at (w # r) = None"
  using linkRegex_at_append_ws [of w "[]" r] by (simp add: linkRegex_at_def js_def)

lemma match_links_ws: "isWhiteSpace w \<Longrightarrow> match_links (w # r) = match_links r"
  by (simp add: linkRegex_at_ws)

lemma match_links_append_ws:
  "isWhiteSpace w \<Longrightarrow> match_links (s @ w # r) = match_links s @ match_links r"
proof (induction s rule: match_links.induct)
  case 1
  then show ?case by (simp add: linkRegex_at_ws)
next
  case (2 c cs)
  show ?case
  proof (cases "linkRegex_at (c # cs)")
    case None
    then have "linkRegex_at ((c # cs) @ w # r) = None"
      using "2.prems" by (simp only: linkRegex_at_append_ws)
    then show ?thesis using None 2 by simp
  next
    case (Some n)
    then have e: "linkRegex_at ((c # cs) @ w # r) = Some n"
      using "2.prems" by (simp only: linkRegex_at_append_ws)
    have n: "0 < n \<and> n \<le> length (c # cs)"
      using Some by (rule linkRegex_at_bounds)
    have ih: "match_links (drop (n - 1) cs @ w # r) = match_links (drop (n - 1) cs) @ match_links r"
      using "2.IH"(2) [OF Some] "2.prems" by simp
    have "take n ((c # cs) @ w # r) = take n (c # cs) @ take (n - length (c # cs)) (w # r)"
      by (rule take_append)
    then have t: "take n ((c # cs) @ w # r) = take n (c # cs)"
      using n by simp
    have d: "drop (n - 1) (cs @ w # r) = drop (n - 1) cs @ w # r"
      using n by auto
    have "match_links ((c # cs) @ w # r) = take n ((c # cs) @ w # r) # match_links (drop (n - 1) (cs @ w # r))"
      using e by simp
    also have "\<dots> = take n (c # cs) # (match_links (drop (n - 1) cs) @ match_links r)"
      by (simp only: t d ih)
    also have "\<dots> = match_links (c # cs) @ match_links r"
      using Some by simp
    finally show ?thesis .
  qed
qed

lemma match_links_join: "match_links (join [newline] ls) = concat (map match_links ls)"
  by (induction ls rule: induct_list012) (simp_all add: match_links_append_ws ws_newline)

lemma match_links_all_ws: "list_all isWhiteSpace s \<Longrightarrow> match_links s = []"
  by (induction s) (simp_all add: linkRegex_at_ws)

lemma match_links_dropWhile: "match_links (dropWhile isWhiteSpace s) = match_links s"
  by (induction s) (simp_all add: linkRegex_at_ws)

lemma match_links_append_all_ws:
  "list_all isWhiteSpace t \<Longrightarrow> match_links (s @ t) = match_links s"
  by (cases t) (simp_all add: match_links_append_ws match_links_all_ws)

lemma rev_dropWhile_rev_decomp:
  "s = rev (dropWhile P (rev s)) @ rev (takeWhile P (rev s))"
proof -
  have "rev (dropWhile P (rev s)) @ rev (takeWhile P (rev s))
      = rev (takeWhile P (rev s) @ dropWhile P (rev s))"
    by (simp only: rev_append)
  also have "\<dots> = rev (rev s)"
    by (simp only: takeWhile_dropWhile_id)
  finally show ?thesis by simp
qed

lemma match_links_rev_dropWhile:
  "match_links (rev (dropWhile isWhiteSpace (rev s))) = match_links s"
proof -
  have ws: "list_all isWhiteSpace (rev (takeWhile isWhiteSpace (rev s)))"
    by (simp add: list_all_iff) (meson set_takeWhileD)
  have "match_links s = match_links (rev (dropWhile isWhiteSpace (rev s)) @ rev (takeWhile isWhiteSpace (rev s)))"
    using rev_dropWhile_rev_decomp [of s isWhiteSpace] by simp
  then show ?thesis by (simp only: match_links_append_all_ws [OF ws])
qed

lemma match_links_trim: "match_links (trim s) = match_links s"
  by (simp add: trim_def match_links_rev_dropWhile match_links_dropWhile)

subsection \<open>The source tag, the reporter and the content\<close>

lemma matches_here_i_iff:
  "matches_here_i p s \<longleftrightarrow> (\<exists>w v. s = w @ v \<and> map canonicalize w = map canonicalize p)"
proof (induction p s rule: matches_here_i.induct)
  case (1 s)
  then show ?case by simp
next
  case (2 p ps)
  then show ?case by simp
next
  case (3 p ps c cs)
  show ?case
  proof
    assume "matches_here_i (p # ps) (c # cs)"
    then obtain w v where "canonicalize p = canonicalize c" "cs = w @ v"
      "map canonicalize w = map canonicalize ps"
      using 3 by auto
    then have "c # cs = (c # w) @ v \<and> map canonicalize (c # w) = map canonicalize (p # ps)"
      by simp
    then show "\<exists>w v. c # cs = w @ v \<and> map canonicalize w = map canonicalize (p # ps)"
      by blast
  next
    assume "\<exists>w v. c # cs = w @ v \<and> map canonicalize w = map canonicalize (p # ps)"
    then obtain w v where wv: "c # cs = w @ v" "map canonicalize w = map canonicalize (p # ps)"
      by blast
    then obtain w' where w: "w = c # w'"
      by (cases w) auto
    then have "cs = w' @ v" "map canonicalize w' = map canonicalize ps"
      "canonicalize c = canonicalize p"
      using wv by auto
    then show "matches_here_i (p # ps) (c # cs)"
      using 3 by auto
  qed
qed

lemma alternatives_nonempty: "[] \<notin> set sourceTagAlternatives"
  by (simp add: sourceTagAlternatives_def js_def)

text \<open>The source-tag test holds exactly of the lines that contain one of the three words
  somewhere, the ASCII letters compared without regard to case.\<close>

lemma sourceTagPattern_test_iff:
  "sourceTagPattern_test line \<longleftrightarrow>
     (\<exists>u w v. line = u @ w @ v
        \<and> map canonicalize w \<in> set (map (map canonicalize) sourceTagAlternatives))"
proof (induction line)
  case Nil
  then show ?case using alternatives_nonempty by auto
next
  case (Cons c cs)
  show ?case
  proof
    assume "sourceTagPattern_test (c # cs)"
    then consider (here) alt where "alt \<in> set sourceTagAlternatives" "matches_here_i alt (c # cs)"
      | (later) "sourceTagPattern_test cs"
      by (auto simp: list_ex_iff)
    then show "\<exists>u w v. c # cs = u @ w @ v
        \<and> map canonicalize w \<in> set (map (map canonicalize) sourceTagAlternatives)"
    proof cases
      case here
      then obtain w v where "c # cs = w @ v" "map canonicalize w = map canonicalize alt"
        by (auto simp: matches_here_i_iff)
      then have "c # cs = [] @ w @ v
        \<and> map canonicalize w \<in> set (map (map canonicalize) sourceTagAlternatives)"
        using here(1) by auto
      then show ?thesis by blast
    next
      case later
      then obtain u w v where "cs = u @ w @ v"
        "map canonicalize w \<in> set (map (map canonicalize) sourceTagAlternatives)"
        using Cons by blast
      then have "c # cs = (c # u) @ w @ v
        \<and> map canonicalize w \<in> set (map (map canonicalize) sourceTagAlternatives)"
        by simp
      then show ?thesis by blast
    qed
  next
    assume "\<exists>u w v. c # cs = u @ w @ v
        \<and> map canonicalize w \<in> set (map (map canonicalize) sourceTagAlternatives)"
    then obtain u w v alt where uwv: "c # cs = u @ w @ v"
      "alt \<in> set sourceTagAlternatives" "map canonicalize w = map canonicalize alt"
      by auto
    show "sourceTagPattern_test (c # cs)"
    proof (cases u)
      case Nil
      then have "matches_here_i alt (c # cs)"
        using uwv by (auto simp: matches_here_i_iff)
      then show ?thesis using uwv(2) by (auto simp: list_ex_iff)
    next
      case (Cons d u')
      then have "cs = u' @ w @ v" using uwv(1) by simp
      then have "sourceTagPattern_test cs"
        using uwv Cons.IH by (metis (no_types, lifting) image_eqI list.set_map)
      then show ?thesis by simp
    qed
  qed
qed

lemma message_lines_text_nonempty: "message_lines text = first # rest \<Longrightarrow> text \<noteq> []"
  using message_lines_Nil by auto


text \<open>Every link of the result is a URL matched on a line that was kept.\<close>

lemma links_on_kept_lines:
  assumes "message_lines text = first # rest"
    and "u \<in> set (links (parseMessage (JStr text) ts hm))"
  shows "\<exists>line \<in> set rest. \<not> sourceTagPattern_test line \<and> u \<in> set (match_links line)"
  using assms message_lines_text_nonempty [OF assms(1)]
  by (auto simp: parseMessage_def Let_def match_links_trim match_links_join)

subsection \<open>The example of the specification\<close>

text \<open>
  Claim C7, as amended. On the text of the example, with timestamp 1707580800 and no
  media, the reporter, the content, the date 10/02/2024 and the one link are as the
  claim gives them, and the time is 16:00: 1707580800 is 2024-02-10T16:00:00Z.
\<close>

theorem parseMessage_example:
  "parseMessage
     (JStr (js ''Reporter Name'' @ [newline] @ js ''line one'' @ [newline]
            @ js ''https://a.test/x line two''))
     1707580800 (Some False) =
   \<lparr>reporter = js ''Reporter Name'',
    content = js ''line one'' @ [newline] @ js ''https://a.test/x line two'',
    date = js ''10/02/2024'', time = js ''16:00'', links = [js ''https://a.test/x''],
    hasMedia = False, sender = None\<rparr>"
  by code_simp

text \<open>The time of the example is not the 12:00 that claim C7 states.\<close>

theorem parseMessage_example_time_not_noon:
  "time (parseMessage
     (JStr (js ''Reporter Name'' @ [newline] @ js ''line one'' @ [newline]
            @ js ''https://a.test/x line two''))
     1707580800 (Some False)) \<noteq> js ''12:00''"
proof -
  have "formatTime 1707580800 = js ''16:00''"
    by code_simp
  moreover have "js ''16:00'' \<noteq> js ''12:00''"
    by (simp add: js_def)
  ultimately show ?thesis
    by (simp only: parseMessage_time) simp
qed


section \<open>Properties of the scraper, the state manager and the exporter\<close>

subsection \<open>What a cycle does\<close>

lemma Math_max_Max:
  assumes "xs \<noteq> []"
  shows "Math_max xs = Some (Max (set xs))"
proof (cases xs)
  case Nil
  then show ?thesis using assms by simp
next
  case (Cons a list)
  then show ?thesis using Max.set_eq_fold [of a list] by simp
qed

lemma parse_loop_empty_iff: "parse_loop msgs = [] \<longleftrightarrow> list_all skip_message msgs"
  by (induction msgs) simp_all

lemma parse_loop_nonempty: "parse_loop msgs \<noteq> [] \<Longrightarrow> msgs \<noteq> []"
  by auto

lemma Max_filter_above:
  fixes f :: "'a \<Rightarrow> int"
  assumes "filter (\<lambda>m. b < f m) xs \<noteq> []"
  shows "Max (set (map f (filter (\<lambda>m. b < f m) xs))) = Max (set (map f xs))"
proof -
  let ?F = "set (map f (filter (\<lambda>m. b < f m) xs))"
  let ?A = "set (map f xs)"
  have ne: "?F \<noteq> {}" using assms by (auto simp: filter_empty_conv)
  have sub: "?F \<subseteq> ?A" by auto
  have neA: "?A \<noteq> {}" using ne sub by auto
  have le: "Max ?F \<le> Max ?A"
    by (rule Max_mono [OF sub ne]) simp
  have inF: "Max ?F \<in> ?F" by (rule Max_in [OF _ ne]) simp
  then have above: "b < Max ?F" by auto
  have inA: "Max ?A \<in> ?A" by (rule Max_in [OF _ neA]) simp
  have "b < Max ?A" using above le by simp
  then have "Max ?A \<in> ?F" using inA by auto
  then have "Max ?A \<le> Max ?F" by simp
  then show ?thesis using le by simp
qed

lemma js_gt_filter_Max:
  assumes "filter (\<lambda>msg. js_gt (timestamp msg) x) fetched \<noteq> []"
  shows "Max (set (map timestamp (filter (\<lambda>msg. js_gt (timestamp msg) x) fetched)))
           = Max (set (map timestamp fetched))"
proof (cases x)
  case Undefined
  then show ?thesis using assms by (simp add: js_gt_def)
next
  case Null
  then show ?thesis using assms Max_filter_above [of 0 timestamp fetched] by (simp add: js_gt_def)
next
  case (Val n)
  then show ?thesis using assms Max_filter_above [of n timestamp fetched] by (simp add: js_gt_def)
qed

text \<open>What a cycle does when the loaded state can be read.\<close>

lemma scrapeMessages_full:
  assumes "read_state (loadState (state_file w)) = Inr s"
    and "lastProcessedTimestamp s = Val 0"
  shows "scrapeMessages c True w =
     (case fetchMessages c Infinity of
        Inl e \<Rightarrow> (Inl e, w\<lparr>calls := calls w @ [FetchMessages Infinity]\<rparr>)
      | Inr fetched \<Rightarrow>
          (if parse_loop fetched = [] then (Inr [], w\<lparr>calls := calls w @ [FetchMessages Infinity]\<rparr>)
           else (case state_fault w of
                   Some m \<Rightarrow>
                     (Inl (Error (js ''Failed to update state: '' @ js ''Failed to save state: '' @ m)),
                      w\<lparr>calls := calls w @ [FetchMessages Infinity]\<rparr>)
                 | None \<Rightarrow>
                     (let s' = merge_state (loadState (state_file w))
                                 \<lparr>upd_chatId = chat_id c, upd_chatName = chat_name c,
                                  upd_lastProcessedTimestamp = Math_max (map timestamp fetched),
                                  upd_totalMessagesProcessed =
                                    js_plus (totalMessagesProcessed s) (int (length (parse_loop fetched)))\<rparr>
                      in (Inr (parse_loop fetched),
                          w\<lparr>calls := calls w @ [FetchMessages Infinity, WriteState s'],
                            state_file := Json (DocObject s')\<rparr>)))))"
  using assms
  by (simp add: scrapeMessages_def fetch_def updateState_def saveState_def Let_def
           split: sum.splits option.splits)


lemma scrapeMessages_delta:
  assumes "read_state (loadState (state_file w)) = Inr s"
    and "lastProcessedTimestamp s \<noteq> Val 0"
  shows "scrapeMessages c False w =
     (case fetchMessages c (Limit 100) of
        Inl e \<Rightarrow> (Inl e, w\<lparr>calls := calls w @ [FetchMessages (Limit 100)]\<rparr>)
      | Inr fetched \<Rightarrow>
          (let new = filter (\<lambda>msg. js_gt (timestamp msg) (lastProcessedTimestamp s)) fetched in
           if parse_loop new = [] then (Inr [], w\<lparr>calls := calls w @ [FetchMessages (Limit 100)]\<rparr>)
           else (case state_fault w of
                   Some m \<Rightarrow>
                     (Inl (Error (js ''Failed to update state: '' @ js ''Failed to save state: '' @ m)),
                      w\<lparr>calls := calls w @ [FetchMessages (Limit 100)]\<rparr>)
                 | None \<Rightarrow>
                     (let s' = merge_state (loadState (state_file w))
                                 \<lparr>upd_chatId = chat_id c, upd_chatName = chat_name c,
                                  upd_lastProcessedTimestamp = Math_max (map timestamp new),
                                  upd_totalMessagesProcessed =
                                    js_plus (totalMessagesProcessed s) (int (length (parse_loop new)))\<rparr>
                      in (Inr (parse_loop new),
                          w\<lparr>calls := calls w @ [FetchMessages (Limit 100), WriteState s'],
                            state_file := Json (DocObject s')\<rparr>)))))"
  using assms
  by (simp add: scrapeMessages_def fetch_def updateState_def saveState_def Let_def
           split: sum.splits option.splits)

lemma exportToCSV_state_file: "state_file (snd (exportToCSV messages a w)) = state_file w"
  by (simp add: exportToCSV_def writeRecords_def Let_def split: option.splits)

lemma scrape_Inr:
  assumes "read_state (loadState (state_file w)) = Inr s"
  shows "scrape c w =
     (case scrapeMessages c (lastProcessedTimestamp s = Val 0) w of
        (Inl e, w1) \<Rightarrow> (failed e, w1)
      | (Inr messages, w1) \<Rightarrow>
          (if messages = [] then
             (\<lparr>success = True, messagesProcessed = 0,
               isFirstRun = Some (lastProcessedTimestamp s = Val 0),
               outputFile = Some output_path, error = None,
               message = js ''No new messages found''\<rparr>, w1)
           else
             (case exportToCSV messages (lastProcessedTimestamp s \<noteq> Val 0) w1 of
                (Inl e, w2) \<Rightarrow> (failed e, w2)
              | (Inr u, w2) \<Rightarrow>
                  (\<lparr>success = True, messagesProcessed = length messages,
                    isFirstRun = Some (lastProcessedTimestamp s = Val 0),
                    outputFile = Some output_path, error = None,
                    message = js ''Successfully processed '' @ String_int (int (length messages))
                              @ js '' messages''\<rparr>, w2))))"
  using assms by (simp add: scrape_def Let_def split: prod.splits sum.splits)

lemma scrape_Inl:
  assumes "read_state (loadState (state_file w)) = Inl e"
  shows "scrape c w = (failed e, w)"
  using assms by (simp add: scrape_def)

lemma exportToCSV_state_file':
  "exportToCSV messages a w = (r, w2) \<Longrightarrow> state_file w2 = state_file w"
  using exportToCSV_state_file [of messages a w] by simp

lemma scrape_state_file_scrapeMessages:
  assumes "read_state (loadState (state_file w)) = Inr s"
  shows "state_file (snd (scrape c w))
       = state_file (snd (scrapeMessages c (lastProcessedTimestamp s = Val 0) w))"
  unfolding scrape_Inr [OF assms]
  by (auto split: prod.splits sum.splits dest: exportToCSV_state_file')

text \<open>The state file after a cycle: as it was, or rewritten with the greatest timestamp
  of the messages the cycle retained.\<close>

lemma scrape_state_file:
  assumes "read_state (loadState (state_file w)) = Inr s"
  shows "state_file (snd (scrape c w)) = state_file w
       \<or> (\<exists>s' fetched new.
             state_file (snd (scrape c w)) = Json (DocObject s')
           \<and> fetchMessages c (if lastProcessedTimestamp s = Val 0 then Infinity else Limit 100)
               = Inr fetched
           \<and> new = (if lastProcessedTimestamp s = Val 0 then fetched
                     else filter (\<lambda>msg. js_gt (timestamp msg) (lastProcessedTimestamp s)) fetched)
           \<and> parse_loop new \<noteq> []
           \<and> state_fault w = None
           \<and> lastProcessedTimestamp s' = Val (Max (set (map timestamp new))))"
proof (cases "lastProcessedTimestamp s = Val 0")
  case True
  show ?thesis
    unfolding scrape_state_file_scrapeMessages [OF assms] using True
    by (auto simp: scrapeMessages_full [OF assms True] Let_def
          merge_state_def stringify_number_def Math_max_Max parse_loop_nonempty
          split: sum.splits option.splits)
next
  case False
  show ?thesis
    unfolding scrape_state_file_scrapeMessages [OF assms] using False
    by (auto simp: scrapeMessages_delta [OF assms False] Let_def
          merge_state_def stringify_number_def Math_max_Max parse_loop_nonempty
          split: sum.splits option.splits)
qed

subsection \<open>The watermark\<close>

text \<open>
  Claim C3. In a cycle of the incremental mode that updates the state (the state can be
  read, its timestamp is not 0, the fetch of the last 100 messages returns, a retained
  message is parsed, and the state file can be written), the new
  \<open>lastProcessedTimestamp\<close> is the greatest timestamp of all the messages the fetch
  returned: those the filter discarded and those skipped for a blank body count too.
\<close>

theorem delta_watermark_max_of_fetched:
  assumes "read_state (loadState (state_file w)) = Inr s"
    and "lastProcessedTimestamp s \<noteq> Val 0"
    and "fetchMessages c (Limit 100) = Inr fetched"
    and "parse_loop (filter (\<lambda>msg. js_gt (timestamp msg) (lastProcessedTimestamp s)) fetched) \<noteq> []"
    and "state_fault w = None"
  shows "\<exists>s'. state_file (snd (scrape c w)) = Json (DocObject s')
            \<and> lastProcessedTimestamp s' = Val (Max (set (map timestamp fetched)))"
proof -
  let ?new = "filter (\<lambda>msg. js_gt (timestamp msg) (lastProcessedTimestamp s)) fetched"
  have ne: "?new \<noteq> []"
    using assms(4) by (rule parse_loop_nonempty)
  have mx: "Math_max (map timestamp ?new) = Some (Max (set (map timestamp fetched)))"
    using ne Math_max_Max [of "map timestamp ?new"] js_gt_filter_Max [OF ne] by simp
  show ?thesis
    unfolding scrape_state_file_scrapeMessages [OF assms(1)]
    using assms(2-5) mx
    by (simp add: scrapeMessages_delta [OF assms(1,2)] Let_def merge_state_def
          stringify_number_def)
qed

lemma skip_text: "skip_message (text_message t ''R'') = False"
  by (simp add: skip_message_def text_message_def js_def trim_def isWhiteSpace_def)

lemma skip_blank: "skip_message (text_message t '' '') = True"
  by (simp add: skip_message_def text_message_def js_def trim_def isWhiteSpace_def)

theorem delta_watermark_max_of_fetched_witness:
  "map timestamp [text_message 900 ''R'', text_message 1500 '' '', text_message 1200 ''R'']
     = [900, 1500, 1200]
   \<and> (\<exists>s'. state_file (snd (scrape
          (source_of [text_message 900 ''R'', text_message 1500 '' '', text_message 1200 ''R''])
          (world_at 1000))) = Json (DocObject s')
        \<and> lastProcessedTimestamp s' = Val 1500)"
proof -
  let ?msgs = "[text_message 900 ''R'', text_message 1500 '' '', text_message 1200 ''R'']"
  let ?s = "\<lparr>chatId = Val (js ''1@g.us''), chatName = Val (js ''News''),
            lastProcessedTimestamp = Val 1000, lastRunDate = Null,
            totalMessagesProcessed = Val 5\<rparr>"
  have a: "read_state (loadState (state_file (world_at 1000))) = Inr ?s"
    by (simp add: world_at_def loadState_def read_state_def)
  have b: "lastProcessedTimestamp ?s \<noteq> Val 0" by simp
  have c: "fetchMessages (source_of ?msgs) (Limit 100) = Inr ?msgs"
    by (simp add: source_of_def)
  have d: "parse_loop (filter (\<lambda>msg. js_gt (timestamp msg) (lastProcessedTimestamp ?s)) ?msgs) \<noteq> []"
    by (simp add: js_gt_def skip_text skip_blank) (simp add: text_message_def)
  have e: "state_fault (world_at 1000) = None"
    by (simp add: world_at_def)
  have t: "map timestamp ?msgs = [900, 1500, 1200]"
    by (simp add: text_message_def)
  show ?thesis
    using delta_watermark_max_of_fetched [OF a b c d e] t by simp
qed

lemma persisted_timestamp_faults:
  "persisted_timestamp (w\<lparr>state_fault := sf, csv_fault := cf\<rparr>) = persisted_timestamp w"
  by (simp add: persisted_timestamp_def)

lemma scrape_monotone:
  assumes valid: "\<forall>lim fetched. fetchMessages c lim = Inr fetched
                    \<longrightarrow> list_all (\<lambda>msg. 0 \<le> timestamp msg) fetched"
  shows "persisted_timestamp w \<le> persisted_timestamp (snd (scrape c w))"
proof (cases "read_state (loadState (state_file w))")
  case (Inl e)
  then show ?thesis by (simp add: scrape_Inl)
next
  case (Inr s)
  from scrape_state_file [OF Inr, of c]
  consider (same) "state_file (snd (scrape c w)) = state_file w"
    | (new) s' fetched new where
        "state_file (snd (scrape c w)) = Json (DocObject s')"
        "fetchMessages c (if lastProcessedTimestamp s = Val 0 then Infinity else Limit 100)
           = Inr fetched"
        "new = (if lastProcessedTimestamp s = Val 0 then fetched
                else filter (\<lambda>msg. js_gt (timestamp msg) (lastProcessedTimestamp s)) fetched)"
        "parse_loop new \<noteq> []"
        "lastProcessedTimestamp s' = Val (Max (set (map timestamp new)))"
    by blast
  then show ?thesis
  proof cases
    case same
    then show ?thesis by (simp add: persisted_timestamp_def)
  next
    case new
    have ne: "new \<noteq> []" using new(4) by (rule parse_loop_nonempty)
    then have inn: "Max (set (map timestamp new)) \<in> set (map timestamp new)"
      by (intro Max_in) simp_all
    have after: "persisted_timestamp (snd (scrape c w)) = Max (set (map timestamp new))"
      using new(1,5) by (simp add: persisted_timestamp_def loadState_def read_state_def)
    have before: "persisted_timestamp w
                    = (case lastProcessedTimestamp s of Val n \<Rightarrow> n | Null \<Rightarrow> 0 | Undefined \<Rightarrow> 0)"
      using Inr by (simp add: persisted_timestamp_def)
    show ?thesis
    proof (cases "lastProcessedTimestamp s = Val 0")
      case True
      then have "list_all (\<lambda>msg. 0 \<le> timestamp msg) new"
        using valid new(2,3) by auto
      then have "0 \<le> Max (set (map timestamp new))"
        using inn by (auto simp: list_all_iff)
      then show ?thesis using True before after by simp
    next
      case False
      then have "new = filter (\<lambda>msg. js_gt (timestamp msg) (lastProcessedTimestamp s)) fetched"
        using new(3) by simp
      then have "js_gt (Max (set (map timestamp new))) (lastProcessedTimestamp s)"
        using inn by auto
      then show ?thesis using before after
        by (cases "lastProcessedTimestamp s") (simp_all add: js_gt_def)
    qed
  qed
qed

text \<open>
  Claim C4. Along any run of cycles on the same files, successful or not, the persisted
  \<open>lastProcessedTimestamp\<close> never decreases, given that the messages of the source
  carry timestamps that are valid Unix times (not negative).
\<close>

theorem watermark_monotone:
  assumes "\<forall>(c, sf, cf) \<in> set cycles. \<forall>lim fetched. fetchMessages c lim = Inr fetched
              \<longrightarrow> list_all (\<lambda>msg. 0 \<le> timestamp msg) fetched"
  shows "sorted (map persisted_timestamp (w # run_cycles cycles w))"
  using assms
proof (induction cycles arbitrary: w)
  case Nil
  then show ?case by simp
next
  case (Cons cyc rest)
  obtain c sf cf where cyc: "cyc = (c, sf, cf)"
    by (cases cyc) auto
  let ?w' = "snd (scrape c (w\<lparr>state_fault := sf, csv_fault := cf\<rparr>))"
  have valid: "\<forall>lim fetched. fetchMessages c lim = Inr fetched
                 \<longrightarrow> list_all (\<lambda>msg. 0 \<le> timestamp msg) fetched"
    using Cons.prems cyc by auto
  have step: "persisted_timestamp w \<le> persisted_timestamp ?w'"
    using scrape_monotone [OF valid, of "w\<lparr>state_fault := sf, csv_fault := cf\<rparr>"]
    by (simp only: persisted_timestamp_faults)
  have rest: "sorted (map persisted_timestamp (?w' # run_cycles rest ?w'))"
    using Cons.IH [of ?w'] Cons.prems by simp
  have "map persisted_timestamp (w # run_cycles (cyc # rest) w)
          = persisted_timestamp w # map persisted_timestamp (?w' # run_cycles rest ?w')"
    by (simp add: cyc Let_def)
  then show ?case
    using step rest by (simp only: list.map sorted2)
qed

theorem watermark_monotone_witness:
  "map persisted_timestamp
     (fresh_world # run_cycles
        [(source_of [text_message 1000 ''R''], None, None),
         (source_of [text_message 1000 ''R'', text_message 1500 ''R''], None, None)]
        fresh_world) = [0, 1000, 1500]
   \<and> sorted (map persisted_timestamp
     (fresh_world # run_cycles
        [(source_of [text_message 1000 ''R''], None, None),
         (source_of [text_message 1000 ''R'', text_message 1500 ''R''], None, None)]
        fresh_world))"
proof -
  let ?cycles = "[(source_of [text_message 1000 ''R''], None, None),
         (source_of [text_message 1000 ''R'', text_message 1500 ''R''], None, None)]"
  have v: "\<forall>(c, sf, cf) \<in> set ?cycles. \<forall>lim fetched. fetchMessages c lim = Inr fetched
              \<longrightarrow> list_all (\<lambda>msg. 0 \<le> timestamp msg) fetched"
    by (auto simp: source_of_def text_message_def)
  have e: "map persisted_timestamp (fresh_world # run_cycles ?cycles fresh_world) = [0, 1000, 1500]"
    by code_simp
  show ?thesis
    using watermark_monotone [OF v, of fresh_world] e by simp
qed

subsection \<open>Empty batches, failures and the first run\<close>

text \<open>
  Claim C6. When the fetch returns and every message the cycle retains is skipped, the
  batch is empty: the cycle reports success with no message processed, and the world
  is as before but for the record of the fetch. The state file and the CSV file are
  untouched, and \<open>exportToCSV\<close> is not called.
\<close>

theorem empty_batch_no_op:
  assumes "read_state (loadState (state_file w)) = Inr s"
    and "fetchMessages c (if lastProcessedTimestamp s = Val 0 then Infinity else Limit 100)
           = Inr fetched"
    and "list_all skip_message
           (if lastProcessedTimestamp s = Val 0 then fetched
            else filter (\<lambda>msg. js_gt (timestamp msg) (lastProcessedTimestamp s)) fetched)"
  shows "scrape c w =
           (\<lparr>success = True, messagesProcessed = 0,
             isFirstRun = Some (lastProcessedTimestamp s = Val 0),
             outputFile = Some output_path, error = None,
             message = js ''No new messages found''\<rparr>,
            w\<lparr>calls := calls w @ [FetchMessages (if lastProcessedTimestamp s = Val 0
                                                 then Infinity else Limit 100)]\<rparr>)"
proof (cases "lastProcessedTimestamp s = Val 0")
  case True
  then show ?thesis
    using assms(2,3)
    by (simp add: scrape_Inr [OF assms(1)] scrapeMessages_full [OF assms(1) True]
          parse_loop_empty_iff)
next
  case False
  then show ?thesis
    using assms(2,3)
    by (simp add: scrape_Inr [OF assms(1)] scrapeMessages_delta [OF assms(1) False]
          parse_loop_empty_iff Let_def)
qed

theorem empty_batch_no_op_witness:
  "list_all skip_message [text_message 1500 '' '']
   \<and> scrape (source_of [text_message 1500 '' '']) (world_at 1000) =
       (\<lparr>success = True, messagesProcessed = 0, isFirstRun = Some False,
         outputFile = Some output_path, error = None,
         message = js ''No new messages found''\<rparr>,
        (world_at 1000)\<lparr>calls := [FetchMessages (Limit 100)]\<rparr>)"
proof -
  let ?s = "\<lparr>chatId = Val (js ''1@g.us''), chatName = Val (js ''News''),
            lastProcessedTimestamp = Val 1000, lastRunDate = Null,
            totalMessagesProcessed = Val 5\<rparr>"
  have a: "read_state (loadState (state_file (world_at 1000))) = Inr ?s"
    by (simp add: world_at_def loadState_def read_state_def)
  have b: "fetchMessages (source_of [text_message 1500 '' ''])
             (if lastProcessedTimestamp ?s = Val 0 then Infinity else Limit 100)
           = Inr [text_message 1500 '' '']"
    by (simp add: source_of_def)
  have k: "list_all skip_message [text_message 1500 '' '']"
    by (simp add: skip_blank)
  have c: "list_all skip_message
             (if lastProcessedTimestamp ?s = Val 0 then [text_message 1500 '' '']
              else filter (\<lambda>msg. js_gt (timestamp msg) (lastProcessedTimestamp ?s))
                     [text_message 1500 '' ''])"
    by (simp add: skip_blank js_gt_def)
  have e: "calls (world_at 1000) = []"
    by (simp add: world_at_def)
  show ?thesis
    using empty_batch_no_op [OF a b c] k e by simp
qed

text \<open>
  Claim C2 fails on the code. The state holds timestamp 1000, the chat has one new
  message of timestamp 1500, and the write to the CSV file raises: the cycle reports
  the failure, the CSV file is as before, and the state file already holds 1500 and the
  new total.
\<close>

theorem sink_failure_after_state_update:
  "success (fst (scrape (source_of [text_message 1500 ''R''])
                   ((world_at 1000)\<lparr>csv_fault := Some (js ''EACCES'')\<rparr>))) = False
   \<and> error (fst (scrape (source_of [text_message 1500 ''R''])
                   ((world_at 1000)\<lparr>csv_fault := Some (js ''EACCES'')\<rparr>))) = Some (js ''EACCES'')
   \<and> persisted_timestamp ((world_at 1000)\<lparr>csv_fault := Some (js ''EACCES'')\<rparr>) = 1000
   \<and> state_file (snd (scrape (source_of [text_message 1500 ''R''])
                   ((world_at 1000)\<lparr>csv_fault := Some (js ''EACCES'')\<rparr>)))
       = Json (DocObject \<lparr>chatId = Val (js ''1@g.us''), chatName = Val (js ''News''),
                          lastProcessedTimestamp = Val 1500, lastRunDate = Null,
                          totalMessagesProcessed = Val 6\<rparr>)
   \<and> csv_file (snd (scrape (source_of [text_message 1500 ''R''])
                   ((world_at 1000)\<lparr>csv_fault := Some (js ''EACCES'')\<rparr>)))
       = Some [HeaderLine header_titles]"
  by code_simp

text \<open>
  Claim C1 fails on the code. With no state file the loaded state is the default, whose
  timestamp is \<open>null\<close>; \<open>null === 0\<close> is false, so the cycle is not a first
  run: it fetches the last 100 messages and exports with \<open>append: true\<close>.
\<close>

theorem default_watermark_is_not_first_run:
  "loadState (state_file fresh_world) = DocObject defaultState
   \<and> lastProcessedTimestamp defaultState = Null
   \<and> isFirstRun (fst (scrape (source_of [text_message 1000 ''R'']) fresh_world)) = Some False
   \<and> success (fst (scrape (source_of [text_message 1000 ''R'']) fresh_world)) = True
   \<and> calls (snd (scrape (source_of [text_message 1000 ''R'']) fresh_world))
       = [FetchMessages (Limit 100),
          WriteState \<lparr>chatId = Val (js ''1@g.us''), chatName = Val (js ''News''),
                      lastProcessedTimestamp = Val 1000, lastRunDate = Null,
                      totalMessagesProcessed = Val 1\<rparr>,
          ExportToCSV 1 True]"
  by code_simp

text \<open>
  Claim C5, as amended. \<open>loadState\<close> returns a value for every state file and never
  raises. It is the default state when the file is absent or unreadable and when its
  text is not JSON; when the text is JSON, it is the parsed document as it is, whether
  or not that is a valid state.
\<close>

theorem loadState_result:
  "loadState NoFile = DocObject \<lparr>chatId = Null, chatName = Null, lastProcessedTimestamp = Null,
                                  lastRunDate = Null, totalMessagesProcessed = Val 0\<rparr>
   \<and> loadState Garbage = DocObject \<lparr>chatId = Null, chatName = Null,
                                     lastProcessedTimestamp = Null, lastRunDate = Null,
                                     totalMessagesProcessed = Val 0\<rparr>
   \<and> loadState (Json d) = d"
  by (simp add: loadState_def defaultState_def)

text \<open>
  Claim C5 as stated fails for a state file that holds \<open>42\<close>: that is JSON but no
  valid state, and \<open>loadState\<close> returns it, not the default.
\<close>

theorem loadState_keeps_invalid_document:
  "loadState (Json (DocValue (JNum 42))) = DocValue (JNum 42)
   \<and> loadState (Json (DocValue (JNum 42)))
       \<noteq> DocObject \<lparr>chatId = Null, chatName = Null, lastProcessedTimestamp = Null,
                     lastRunDate = Null, totalMessagesProcessed = Val 0\<rparr>"
  by (simp add: loadState_def)

subsection \<open>The header row\<close>

lemma exportToCSV_csv_file:
  "csv_file (snd (exportToCSV messages a w)) =
     (case csv_fault w of
        Some m \<Rightarrow> csv_file w
      | None \<Rightarrow>
          (case csv_file w of
             None \<Rightarrow> Some (HeaderLine header_titles # map RecordLine (map to_record messages))
           | Some old \<Rightarrow>
               Some ((if a then old else [HeaderLine header_titles])
                     @ map RecordLine (map to_record messages))))"
  by (simp add: exportToCSV_def writeRecords_def Let_def split: option.splits)

lemma exportToCSV_csv_fault: "csv_fault (snd (exportToCSV messages a w)) = csv_fault w"
  by (simp add: exportToCSV_def writeRecords_def Let_def split: option.splits)

lemma exportToCSV_fst:
  "fst (exportToCSV messages a w) = (case csv_fault w of Some m \<Rightarrow> Inl (Error m) | None \<Rightarrow> Inr ())"
  by (simp add: exportToCSV_def writeRecords_def Let_def split: option.splits)

lemma no_header_in_records: "filter is_header (map RecordLine rs) = []"
  by (induction rs) simp_all

lemma append_keeps_header_rows:
  assumes "csv_file w = Some old"
  shows "header_rows (snd (exportToCSV messages True w)) = header_rows w
       \<and> csv_file (snd (exportToCSV messages True w)) \<noteq> None"
  using assms
  by (simp add: header_rows_def exportToCSV_csv_file no_header_in_records split: option.splits)

lemma append_creates_one_header:
  assumes "csv_file w = None"
  shows "header_rows (snd (exportToCSV messages True w)) \<le> 1"
  using assms
  by (simp add: header_rows_def exportToCSV_csv_file no_header_in_records split: option.splits)

lemma export_appends_existing:
  "csv_file w \<noteq> None \<Longrightarrow> header_rows (export_appends batches w) = header_rows w"
proof (induction batches arbitrary: w)
  case Nil
  then show ?case by simp
next
  case (Cons messages batches)
  then obtain old where old: "csv_file w = Some old" by auto
  from append_keeps_header_rows [OF old, of messages] Cons.IH [of "snd (exportToCSV messages True w)"]
  show ?case by simp
qed

lemma export_appends_at_most_one:
  "header_rows w \<le> 1 \<Longrightarrow> header_rows (export_appends batches w) \<le> 1"
proof (induction batches arbitrary: w)
  case Nil
  then show ?case by simp
next
  case (Cons messages batches)
  have "header_rows (snd (exportToCSV messages True w)) \<le> 1"
  proof (cases "csv_file w")
    case None
    then show ?thesis by (rule append_creates_one_header)
  next
    case (Some old)
    then show ?thesis using append_keeps_header_rows [OF Some, of messages] Cons.prems by simp
  qed
  then show ?case using Cons.IH by simp
qed

text \<open>
  Claim C9. A call with \<open>append: true\<close> on a destination that does not exist writes
  the header row and the data rows, as the call with \<open>append: false\<close> does. On a
  destination that exists, the header row is written exactly when \<open>append\<close> is
  false. Repeated calls with \<open>append: true\<close> leave the number of header rows of an
  existing destination as it was, and never take the number of header rows above one.
\<close>

theorem at_most_one_header:
  "(csv_file w = None \<longrightarrow> csv_fault w = None \<longrightarrow>
      csv_file (snd (exportToCSV messages True w))
        = Some (HeaderLine header_titles # map RecordLine (map to_record messages))
      \<and> csv_file (snd (exportToCSV messages True w)) = csv_file (snd (exportToCSV messages False w))
      \<and> fst (exportToCSV messages True w) = fst (exportToCSV messages False w))
   \<and> (csv_file w = Some old \<longrightarrow> csv_fault w = None \<longrightarrow>
      csv_file (snd (exportToCSV messages a w))
        = Some ((if a then old else [HeaderLine header_titles])
                @ map RecordLine (map to_record messages)))
   \<and> (csv_file w \<noteq> None \<longrightarrow> header_rows (export_appends batches w) = header_rows w)
   \<and> (header_rows w \<le> 1 \<longrightarrow> header_rows (export_appends batches w) \<le> 1)"
  using export_appends_at_most_one [of w batches]
  by (simp add: exportToCSV_csv_file exportToCSV_fst export_appends_existing)

theorem at_most_one_header_witness:
  "csv_file fresh_world = None \<and> csv_fault fresh_world = None
   \<and> csv_file (snd (exportToCSV [parsed_R] True fresh_world))
       = Some [HeaderLine header_titles, RecordLine (to_record parsed_R)]
   \<and> csv_file (world_at 0) = Some [HeaderLine header_titles] \<and> csv_fault (world_at 0) = None
   \<and> csv_file (snd (exportToCSV [parsed_R] True (world_at 0)))
       = Some [HeaderLine header_titles, RecordLine (to_record parsed_R)]
   \<and> csv_file (snd (exportToCSV [parsed_R] False (world_at 0)))
       = Some [HeaderLine header_titles, RecordLine (to_record parsed_R)]
   \<and> header_rows (world_at 0) = 1
   \<and> header_rows (export_appends [[parsed_R], [], [parsed_R, parsed_R]] (world_at 0)) = 1
   \<and> header_rows fresh_world = 0
   \<and> header_rows (export_appends [[parsed_R], [], [parsed_R, parsed_R]] fresh_world) \<le> 1"
proof -
  have f: "csv_file fresh_world = None" "csv_fault fresh_world = None" "header_rows fresh_world = 0"
    by (simp_all add: fresh_world_def header_rows_def)
  have g: "csv_file (world_at 0) = Some [HeaderLine header_titles]" "csv_fault (world_at 0) = None"
    "header_rows (world_at 0) = 1"
    by (simp_all add: world_at_def header_rows_def)
  note t1 = at_most_one_header [of fresh_world "[parsed_R]" "[]" True "[[parsed_R], [], [parsed_R, parsed_R]]"]
  note t2 = at_most_one_header [of "world_at 0" "[parsed_R]" "[HeaderLine header_titles]" True
                                  "[[parsed_R], [], [parsed_R, parsed_R]]"]
  note t3 = at_most_one_header [of "world_at 0" "[parsed_R]" "[HeaderLine header_titles]" False "[]"]
  show ?thesis
    using t1 t2 t3 f g by simp
qed

subsection \<open>The mode of a cycle\<close>

lemma exportToCSV_calls:
  "calls (snd (exportToCSV messages a w)) = calls w @ [ExportToCSV (length messages) a]"
  by (simp add: exportToCSV_def writeRecords_def Let_def split: option.splits)

lemma exportToCSV_calls':
  "exportToCSV messages a w = (r, w2) \<Longrightarrow> calls w2 = calls w @ [ExportToCSV (length messages) a]"
  using exportToCSV_calls [of messages a w] by simp

text \<open>
  The mode of a cycle. With a persisted timestamp of 0 the cycle fetches the whole
  history and, if it exports, exports with \<open>append: false\<close>; with any other state that
  can be read, \<open>null\<close> included, it fetches the last 100 messages and exports with
  \<open>append: true\<close>.
\<close>

lemma zero_watermark_backfill:
  assumes "read_state (loadState (state_file w)) = Inr s"
    and "lastProcessedTimestamp s = Val 0"
  shows "\<exists>rest. calls (snd (scrape c w)) = calls w @ FetchMessages Infinity # rest
           \<and> (\<forall>n a. ExportToCSV n a \<in> set rest \<longrightarrow> a = False)"
  unfolding scrape_Inr [OF assms(1)] using assms(2)
  by (auto simp: scrapeMessages_full [OF assms] Let_def
        split: sum.splits option.splits prod.splits dest!: exportToCSV_calls')

lemma other_watermark_incremental:
  assumes "read_state (loadState (state_file w)) = Inr s"
    and "lastProcessedTimestamp s \<noteq> Val 0"
  shows "\<exists>rest. calls (snd (scrape c w)) = calls w @ FetchMessages (Limit 100) # rest
           \<and> (\<forall>n a. ExportToCSV n a \<in> set rest \<longrightarrow> a = True)"
  unfolding scrape_Inr [OF assms(1)] using assms(2)
  by (auto simp: scrapeMessages_delta [OF assms] Let_def
        split: sum.splits option.splits prod.splits dest!: exportToCSV_calls')

text \<open>
  A cycle whose export raises: the summary is the failure, and the state file already
  holds the new timestamp.
\<close>

lemma sink_failure_keeps_new_state:
  assumes "read_state (loadState (state_file w)) = Inr s"
    and "fetchMessages c (if lastProcessedTimestamp s = Val 0 then Infinity else Limit 100)
           = Inr fetched"
    and "new = (if lastProcessedTimestamp s = Val 0 then fetched
                else filter (\<lambda>msg. js_gt (timestamp msg) (lastProcessedTimestamp s)) fetched)"
    and "parse_loop new \<noteq> []"
    and "state_fault w = None"
    and "csv_fault w = Some m"
  shows "fst (scrape c w) = failed (Error m)
       \<and> (\<exists>s'. state_file (snd (scrape c w)) = Json (DocObject s')
              \<and> lastProcessedTimestamp s' = Val (Max (set (map timestamp new))))"
proof (cases "lastProcessedTimestamp s = Val 0")
  case True
  then show ?thesis
    unfolding scrape_Inr [OF assms(1)] using assms(2-6)
    by (simp add: scrapeMessages_full [OF assms(1) True] Let_def exportToCSV_def
          writeRecords_def merge_state_def stringify_number_def Math_max_Max parse_loop_nonempty)
next
  case False
  then show ?thesis
    unfolding scrape_Inr [OF assms(1)] using assms(2-6)
    by (simp add: scrapeMessages_delta [OF assms(1) False] Let_def exportToCSV_def
          writeRecords_def merge_state_def stringify_number_def Math_max_Max parse_loop_nonempty)
qed

text \<open>Two fields of the example of claim C7, read off the theorem.\<close>

theorem parseMessage_example_witness:
  "date (parseMessage
     (JStr (js ''Reporter Name'' @ [newline] @ js ''line one'' @ [newline]
            @ js ''https://a.test/x line two''))
     1707580800 (Some False)) = js ''10/02/2024''
   \<and> time (parseMessage
     (JStr (js ''Reporter Name'' @ [newline] @ js ''line one'' @ [newline]
            @ js ''https://a.test/x line two''))
     1707580800 (Some False)) = js ''16:00''"
  using parseMessage_example by simp

end
